theory Spec2Isabelle
  imports Complex_Main
begin

section \<open>Python exceptions\<close>

text \<open>
  Every exception the modelled code can raise is a value of this type; a function that
  can raise returns \<open>exn + 'a\<close>, with \<open>Inl\<close> for the exception.
  \<open>InvalidPolygon l\<close> is the \<^verbatim>\<open>ValueError('Polygon of object #%d is invalid.' % label)\<close>
  of \<^verbatim>\<open>to_polygons\<close>; \<open>ValueError\<close> is any other \<^verbatim>\<open>ValueError\<close>.
\<close>

datatype exn =
    AttributeError
  | IndexError
  | UnboundLocalError
  | ValueError
  | TypeError
  | InvalidPolygon int

section \<open>Tile geometry: \<^verbatim>\<open>tmlib/models/site.py\<close>\<close>

text \<open>
  A \<^verbatim>\<open>Site\<close> refers to its \<^verbatim>\<open>Well\<close>, the well to its \<^verbatim>\<open>Plate\<close>, the plate to its
  \<^verbatim>\<open>Experiment\<close>. Each reference may be \<^verbatim>\<open>None\<close>, and reading an attribute of
  \<^verbatim>\<open>None\<close> raises \<^verbatim>\<open>AttributeError\<close>. The classes \<^verbatim>\<open>Well\<close>, \<^verbatim>\<open>Plate\<close> and
  \<^verbatim>\<open>Experiment\<close> are not part of the sources at hand: of a well only the value of its
  \<^verbatim>\<open>offset\<close> property is used, which is the field \<open>well_offset\<close> here; of an experiment
  the two displacement settings (record \<open>tm_experiment\<close>, reached through the
  field \<open>plate_experiment\<close> of a plate). Python integers are unbounded, hence \<open>int\<close>.
  The columns \<^verbatim>\<open>y\<close> and \<^verbatim>\<open>x\<close> of a site are the fields \<open>site_y\<close> and \<open>site_x\<close>.
\<close>

record tm_experiment =
  vertical_site_displacement :: int
  horizontal_site_displacement :: int

record plate =
  plate_experiment :: "tm_experiment option"

record well =
  plate :: "plate option"
  well_offset :: "int \<times> int"

record intersection =
  upper_overhang :: int
  lower_overhang :: int
  right_overhang :: int
  left_overhang :: int

record site =
  site_y :: int
  site_x :: int
  height :: int
  width :: int
  well :: "well option"
  intersection :: "intersection option"

definition image_size :: "site \<Rightarrow> int \<times> int" where
  "image_size s = (height s, width s)"

text \<open>
  \<^verbatim>\<open>Site.offset\<close>: the three attribute reads \<^verbatim>\<open>self.well\<close>, \<^verbatim>\<open>well.plate\<close>,
  \<^verbatim>\<open>plate.experiment\<close> come first, in this order, then the two sums.
\<close>

definition offset :: "site \<Rightarrow> exn + (int \<times> int)" where
  "offset s =
     (case well s of
        None \<Rightarrow> Inl AttributeError
      | Some w \<Rightarrow>
         (case plate w of
            None \<Rightarrow> Inl AttributeError
          | Some p \<Rightarrow>
             (case plate_experiment p of
                None \<Rightarrow> Inl AttributeError
              | Some e \<Rightarrow>
                 (let y_offset =
                        site_y s * fst (image_size s) +
                        site_y s * vertical_site_displacement e +
                        fst (well_offset w);
                      x_offset =
                        site_x s * snd (image_size s) +
                        site_x s * horizontal_site_displacement e +
                        snd (well_offset w)
                  in Inr (y_offset, x_offset)))))"

definition aligned_height :: "site \<Rightarrow> int" where
  "aligned_height s =
     (case intersection s of
        Some i \<Rightarrow> height s - (lower_overhang i + upper_overhang i)
      | None \<Rightarrow> height s)"

definition aligned_width :: "site \<Rightarrow> int" where
  "aligned_width s =
     (case intersection s of
        Some i \<Rightarrow> width s - (left_overhang i + right_overhang i)
      | None \<Rightarrow> width s)"

definition aligned_image_size :: "site \<Rightarrow> int \<times> int" where
  "aligned_image_size s = (aligned_height s, aligned_width s)"

definition aligned_offset :: "site \<Rightarrow> exn + (int \<times> int)" where
  "aligned_offset s =
     (case intersection s of
        Some i \<Rightarrow>
          (case offset s of
             Inl e \<Rightarrow> Inl e
           | Inr (y_offset, x_offset) \<Rightarrow>
               Inr (y_offset + lower_overhang i, x_offset + right_overhang i))
      | None \<Rightarrow> offset s)"

text \<open>Concrete metadata used to instantiate the theorems below.\<close>

definition experiment0 :: tm_experiment where
  "experiment0 = \<lparr>vertical_site_displacement = 3, horizontal_site_displacement = -2\<rparr>"

definition well0 :: well where
  "well0 = \<lparr>plate = Some \<lparr>plate_experiment = Some experiment0\<rparr>, well_offset = (1000, 2000)\<rparr>"

definition site0 :: site where
  "site0 = \<lparr>site_y = 2, site_x = 3, height = 100, width = 200,
             well = Some well0, intersection = None\<rparr>"

definition site_zero_overhang :: site where
  "site_zero_overhang =
     site0\<lparr>intersection := Some \<lparr>upper_overhang = 4, lower_overhang = 0,
                                   right_overhang = 0, left_overhang = 7\<rparr>\<rparr>"

definition site_shifted :: site where
  "site_shifted =
     site0\<lparr>intersection := Some \<lparr>upper_overhang = 4, lower_overhang = 5,
                                   right_overhang = 6, left_overhang = 7\<rparr>\<rparr>"

section \<open>Border classifier: \<^verbatim>\<open>jtlib/utils.py\<close>\<close>

text \<open>
  A single-plane label image is a list of rows of integers, as a two-dimensional
  \<^verbatim>\<open>numpy\<close> array is. \<open>ncols\<close> is the length of its rows. \<^verbatim>\<open>np.unique\<close> returns the
  distinct values in ascending order.
\<close>

type_synonym raster = "int list list"

definition ncols :: "'a list list \<Rightarrow> nat" where
  "ncols im = (case im of [] \<Rightarrow> 0 | r # _ \<Rightarrow> length r)"

definition rectangular :: "raster \<Rightarrow> bool" where
  "rectangular im \<longleftrightarrow> im \<noteq> [] \<and> 0 < ncols im \<and> list_all (\<lambda>r. length r = ncols im) im"

definition np_unique :: "int list \<Rightarrow> int list" where
  "np_unique xs = sort (remdups xs)"

text \<open>
  The four edge reads \<^verbatim>\<open>im[0, :]\<close>, \<^verbatim>\<open>im[-1, :]\<close>, \<^verbatim>\<open>im[:, 0]\<close>, \<^verbatim>\<open>im[:, -1]\<close>:
  the first two raise \<^verbatim>\<open>IndexError\<close> on an image without rows, the other two on one
  without columns.
\<close>

definition edge_values :: "raster \<Rightarrow> exn + int list list" where
  "edge_values im =
     (if im = [] \<or> ncols im = 0 then Inl IndexError
      else Inr [np_unique (hd im), np_unique (last im),
                np_unique (map hd im), np_unique (map last im)])"

text \<open>
  \<^verbatim>\<open>list(reduce(set.union, map(set, edges)).difference({0}))\<close>: the order of a list made
  from a set is not fixed by Python; the code only tests membership in it.
\<close>

definition border_ids_of :: "int list list \<Rightarrow> int list" where
  "border_ids_of edges = filter (\<lambda>v. v \<noteq> 0) (remdups (concat edges))"

definition object_ids :: "raster \<Rightarrow> int list" where
  "object_ids im = np_unique (filter (\<lambda>v. v \<noteq> 0) (concat im))"

definition get_border_ids :: "raster \<Rightarrow> exn + int list" where
  "get_border_ids im =
     (case edge_values im of
        Inl e \<Rightarrow> Inl e
      | Inr borders \<Rightarrow>
          (let border_ids = border_ids_of borders
           in Inr (filter (\<lambda>i. i \<in> set border_ids) (object_ids im))))"

definition find_border_objects :: "raster \<Rightarrow> exn + int list" where
  "find_border_objects im =
     (case edge_values im of
        Inl e \<Rightarrow> Inl e
      | Inr edges \<Rightarrow>
          (let border_ids = border_ids_of edges
           in Inr (map (\<lambda>ob. if ob \<in> set border_ids then 1 else 0) (object_ids im))))"

definition raster_a :: raster where
  "raster_a = [[0, 7, 0, 0],
               [0, 7, 3, 0],
               [2, 0, 3, 0],
               [2, 0, 0, 0]]"

section \<open>Arrays\<close>

text \<open>
  A \<^verbatim>\<open>numpy\<close> array of any rank: its shape, its element type and its elements, read at an
  index vector. Only the distinction between \<^verbatim>\<open>int32\<close> and the other element types
  matters to the code.
\<close>

datatype dtype = Int32 | OtherDtype

record ndarray =
  shape :: "nat list"
  dtype :: dtype
  item :: "nat list \<Rightarrow> int"

definition np_zeros :: "nat list \<Rightarrow> ndarray" where
  "np_zeros dimensions = \<lparr>shape = dimensions, dtype = Int32, item = (\<lambda>_. 0)\<rparr>"

text \<open>Storing a Python integer in an \<^verbatim>\<open>int32\<close> array keeps its low 32 bits, signed.\<close>

definition int32 :: "int \<Rightarrow> int" where
  "int32 v = (v + 2147483648) mod 4294967296 - 2147483648"

text \<open>
  An index \<open>i\<close> along an axis of length \<open>n\<close> is in bounds when \<open>-n \<le> i < n\<close>; a
  negative index counts from the end.
\<close>

definition valid_index :: "nat \<Rightarrow> int \<Rightarrow> bool" where
  "valid_index n i \<longleftrightarrow> - int n \<le> i \<and> i < int n"

definition wrap_index :: "nat \<Rightarrow> int \<Rightarrow> nat" where
  "wrap_index n i = nat (i mod int n)"

text \<open>
  \<^verbatim>\<open>array[y, x, z, t] = label\<close> with index arrays \<open>y\<close>, \<open>x\<close> (given as the list of
  their pairs) and integers \<open>z\<close>, \<open>t\<close>. Four indices into an array of rank below four
  raise \<^verbatim>\<open>IndexError\<close>. When the index arrays are empty nothing is written and nothing
  is checked; otherwise every index must be in bounds. Axes beyond the fourth are
  assigned as a whole.
\<close>

definition target_cells :: "nat list \<Rightarrow> (int \<times> int) list \<Rightarrow> int \<Rightarrow> int \<Rightarrow> nat list list" where
  "target_cells shp yx z t =
     map (\<lambda>(y, x). [wrap_index (shp ! 0) y, wrap_index (shp ! 1) x,
                      wrap_index (shp ! 2) z, wrap_index (shp ! 3) t]) yx"

definition setitem4 :: "ndarray \<Rightarrow> (int \<times> int) list \<Rightarrow> int \<Rightarrow> int \<Rightarrow> int \<Rightarrow> exn + ndarray" where
  "setitem4 a yx z t v =
     (if length (shape a) < 4 then Inl IndexError
      else if yx = [] then Inr a
      else if list_all (\<lambda>(y, x). valid_index (shape a ! 0) y \<and> valid_index (shape a ! 1) x) yx
              \<and> valid_index (shape a ! 2) z \<and> valid_index (shape a ! 3) t
      then Inr (a\<lparr>item := (\<lambda>idx. if take 4 idx \<in> set (target_cells (shape a) yx z t)
                                   then int32 v else item a idx)\<rparr>)
      else Inl IndexError)"

text \<open>\<^verbatim>\<open>np.squeeze\<close> drops the axes of length one.\<close>

fun unsqueeze_index :: "nat list \<Rightarrow> nat list \<Rightarrow> nat list" where
  "unsqueeze_index [] idx = []"
| "unsqueeze_index (n # ns) idx =
     (if n = 1 then 0 # unsqueeze_index ns idx
      else (case idx of [] \<Rightarrow> [] | i # rest \<Rightarrow> i # unsqueeze_index ns rest))"

fun squeeze_index :: "nat list \<Rightarrow> nat list \<Rightarrow> nat list" where
  "squeeze_index (n # ns) (i # rest) =
     (if n = 1 then squeeze_index ns rest else i # squeeze_index ns rest)"
| "squeeze_index _ _ = []"

definition np_squeeze :: "ndarray \<Rightarrow> ndarray" where
  "np_squeeze a =
     \<lparr>shape = filter (\<lambda>n. n \<noteq> 1) (shape a), dtype = dtype a,
      item = (\<lambda>idx. item a (unsqueeze_index (shape a) idx))\<rparr>"

section \<open>Rasterization: \<^verbatim>\<open>SegmentedObjects.from_polygons\<close>\<close>

text \<open>
  The handle object: its name, key and help text, and the label image it holds.
  Assigning \<^verbatim>\<open>self.value\<close> goes through the setter of \<^verbatim>\<open>LabelImage\<close>, which raises
  \<^verbatim>\<open>TypeError\<close> unless the array has element type \<^verbatim>\<open>int32\<close>.
\<close>

record handle =
  handle_name :: string
  handle_key :: string
  handle_help :: string
  handle_value :: ndarray

definition set_value :: "handle \<Rightarrow> ndarray \<Rightarrow> exn + handle" where
  "set_value h v =
     (if dtype v \<noteq> Int32 then Inl TypeError else Inr (h\<lparr>handle_value := v\<rparr>))"

text \<open>
  The two library calls of the loop body are parameters:
  \<open>exterior_coords\<close> is \<^verbatim>\<open>np.array(to_shape(poly).exterior.coords).astype(int)\<close>, the
  rows \<open>(x, y)\<close> of the exterior ring; \<open>draw_polygon\<close> is \<^verbatim>\<open>skimage.draw.polygon(y, x)\<close>,
  the (row, column) pairs of the filled pixels. Both are taken to return.
\<close>

record 'p raster_libs =
  exterior_coords :: "'p \<Rightarrow> (int \<times> int) list"
  draw_polygon :: "int list \<Rightarrow> int list \<Rightarrow> (int \<times> int) list"

type_synonym 'p polygons = "((int \<times> int \<times> int) \<times> 'p) list"

text \<open>
  The pixels one dictionary entry fills, before they are used as indices.
\<close>

definition filled_pixels :: "'p raster_libs \<Rightarrow> int \<Rightarrow> int \<Rightarrow> 'p \<Rightarrow> (int \<times> int) list" where
  "filled_pixels L y_offset x_offset poly =
     (let coordinates = exterior_coords L poly;
          x = map (\<lambda>c. fst c - x_offset) coordinates;
          y = map (\<lambda>c. snd c - y_offset) coordinates
      in draw_polygon L y x)"

definition write_polygon ::
  "'p raster_libs \<Rightarrow> int \<Rightarrow> int \<Rightarrow> ndarray \<Rightarrow> (int \<times> int \<times> int) \<times> 'p \<Rightarrow> exn + ndarray" where
  "write_polygon L y_offset x_offset array entry =
     (case entry of ((t, z, label), poly) \<Rightarrow>
        setitem4 array (filled_pixels L y_offset x_offset poly) z t label)"

text \<open>
  The loop over \<^verbatim>\<open>polygons.iteritems()\<close>. The dictionary is the list of its items in
  the order the iteration yields them.
\<close>

fun write_polygons ::
  "'p raster_libs \<Rightarrow> int \<Rightarrow> int \<Rightarrow> ndarray \<Rightarrow> 'p polygons \<Rightarrow> exn + ndarray" where
  "write_polygons L y_offset x_offset array [] = Inr array"
| "write_polygons L y_offset x_offset array (entry # rest) =
     (case write_polygon L y_offset x_offset array entry of
        Inl e \<Rightarrow> Inl e
      | Inr array' \<Rightarrow> write_polygons L y_offset x_offset array' rest)"

text \<open>
  \<open>from_polygons\<close> returns the label image together with the handle after the call.
\<close>

definition from_polygons ::
  "'p raster_libs \<Rightarrow> handle \<Rightarrow> 'p polygons \<Rightarrow> int \<Rightarrow> int \<Rightarrow> nat list
     \<Rightarrow> exn + (ndarray \<times> handle)" where
  "from_polygons L self polygons y_offset x_offset dimensions =
     (case write_polygons L y_offset x_offset (np_zeros dimensions) polygons of
        Inl e \<Rightarrow> Inl e
      | Inr array \<Rightarrow>
          (case set_value self (np_squeeze array) of
             Inl e \<Rightarrow> Inl e
           | Inr self' \<Rightarrow> Inr (handle_value self', self')))"

text \<open>
  A concrete instance: polygons are axis-parallel boxes given by two opposite corners
  \<open>(x0, y0)\<close>, \<open>(x1, y1)\<close>; the fill is every pixel of the box of the ring's extreme
  coordinates.
\<close>

definition box_libs :: "((int \<times> int) \<times> (int \<times> int)) raster_libs" where
  "box_libs =
     \<lparr>exterior_coords = (\<lambda>((x0, y0), (x1, y1)). [(x0, y0), (x1, y0), (x1, y1), (x0, y1), (x0, y0)]),
      draw_polygon = (\<lambda>y x. concat (map (\<lambda>r. map (\<lambda>c. (r, c)) [Min (set x) .. Max (set x)])
                                       [Min (set y) .. Max (set y)]))\<rparr>"

definition handle0 :: handle where
  "handle0 = \<lparr>handle_name = ''objects'', handle_key = ''cells'', handle_help = [],
              handle_value = \<lparr>shape = [2, 2], dtype = Int32, item = (\<lambda>_. 9)\<rparr>\<rparr>"

definition two_boxes :: "((int \<times> int) \<times> (int \<times> int)) polygons" where
  "two_boxes = [((0, 0, 1), ((0, 0), (2, 2))), ((0, 0, 2), ((2, 1), (3, 3)))]"

text \<open>
  The cells of a four-axis array of shape \<open>shp\<close> that one dictionary entry writes.
\<close>

definition entry_cells ::
  "'p raster_libs \<Rightarrow> int \<Rightarrow> int \<Rightarrow> nat list \<Rightarrow> (int \<times> int \<times> int) \<times> 'p \<Rightarrow> nat list list" where
  "entry_cells L y_offset x_offset shp entry =
     (case entry of ((t, z, label), poly) \<Rightarrow>
        target_cells shp (filled_pixels L y_offset x_offset poly) z t)"

section \<open>Polygonization: \<^verbatim>\<open>SegmentedObjects.to_polygons\<close>\<close>

text \<open>
  The model covers a handle whose label image is a single two-dimensional plane
  (\<^verbatim>\<open>array.ndim == 2\<close>), so the loops over \<open>t\<close> and \<open>z\<close> run once, with \<open>t = z = 0\<close>.
  \<^verbatim>\<open>self.labels\<close> are the distinct positive values, ascending.
\<close>

definition labels :: "raster \<Rightarrow> int list" where
  "labels v = np_unique (filter (\<lambda>p. p > 0) (concat v))"

text \<open>
  \<^verbatim>\<open>np.where(value == label)\<close>, transposed: the (row, column) pairs of the pixels that
  carry the label, in row-major order.
\<close>

definition where_eq :: "raster \<Rightarrow> int \<Rightarrow> (int \<times> int) list" where
  "where_eq v label =
     concat (map (\<lambda>y. map (\<lambda>x. (int y, int x))
                          (filter (\<lambda>x. v ! y ! x = label) [0..<length (v ! y)]))
                 [0..<length v])"

text \<open>
  \<^verbatim>\<open>mahotas.labeled.bbox(plane)[label]\<close>: \<open>[min row, max row + 1, min column,
  max column + 1]\<close> of the pixels that carry the label. The code reads it only for
  labels that occur in the plane.
\<close>

definition labeled_bbox :: "raster \<Rightarrow> int \<Rightarrow> int list" where
  "labeled_bbox plane label =
     (let ps = where_eq plane label; ys = map fst ps; xs = map snd ps
      in if ps = [] then [0, 0, 0, 0]
         else [Min (set ys), Max (set ys) + 1, Min (set xs), Max (set xs) + 1])"

text \<open>
  The four assignments \<^verbatim>\<open>plane[0, :] = 0\<close>, \<^verbatim>\<open>plane[-1, :] = 0\<close>, \<^verbatim>\<open>plane[:, 0] = 0\<close>,
  \<^verbatim>\<open>plane[:, -1] = 0\<close> on the copy of the label image.
\<close>

definition zero_border :: "raster \<Rightarrow> exn + raster" where
  "zero_border plane =
     (if plane = [] \<or> ncols plane = 0 then Inl IndexError
      else
        (let zeros = replicate (ncols plane) 0;
             rows = (plane[0 := zeros])[length plane - 1 := zeros]
         in Inr (map (\<lambda>r. (r[0 := 0])[length r - 1 := 0]) rows)))"

text \<open>
  Modelled from the spec: \<^verbatim>\<open>jtlib.utils.extract_bbox_image\<close> is called by
  \<^verbatim>\<open>to_polygons\<close> but is not defined in the sources at hand. The specification has the
  code extract the crop of the label's bounding box, padded by one pixel of background
  on every side: the rows \<open>bbox[0]\<close> to \<open>bbox[1] - 1\<close> and the columns \<open>bbox[2]\<close> to
  \<open>bbox[3] - 1\<close>, surrounded by \<open>pad\<close> lines of zeros.
\<close>

definition np_pad :: "nat \<Rightarrow> raster \<Rightarrow> raster" where
  "np_pad pad im =
     (let w = ncols im + 2 * pad;
          line = replicate w 0
      in replicate pad line
         @ map (\<lambda>r. replicate pad 0 @ r @ replicate pad 0) im
         @ replicate pad line)"

definition extract_bbox_image :: "raster \<Rightarrow> int list \<Rightarrow> nat \<Rightarrow> raster" where
  "extract_bbox_image img bbox pad =
     (let rows = take (nat (bbox ! 1) - nat (bbox ! 0)) (drop (nat (bbox ! 0)) img);
          cropped = map (\<lambda>r. take (nat (bbox ! 3) - nat (bbox ! 2)) (drop (nat (bbox ! 2)) r)) rows
      in np_pad pad cropped)"

definition mask_of :: "raster \<Rightarrow> int \<Rightarrow> bool list list" where
  "mask_of obj_im label = map (map (\<lambda>p. p = label)) obj_im"

text \<open>
  Contours are lists of points \<open>(x, y)\<close>, as OpenCV returns them. A hierarchy entry is
  \<open>[next, previous, first child, parent]\<close>; the code reads the last two.
\<close>

type_synonym point = "int \<times> int"
type_synonym ring = "point list"
type_synonym hier = "int \<times> int \<times> int \<times> int"

definition h_child :: "hier \<Rightarrow> int" where
  "h_child h = fst (snd (snd h))"

definition h_parent :: "hier \<Rightarrow> int" where
  "h_parent h = snd (snd (snd h))"

text \<open>
  The library calls of \<^verbatim>\<open>to_polygons\<close> are parameters. \<open>find_contours\<close> is
  \<^verbatim>\<open>cv2.findContours(mask * 255, cv2.RETR_CCOMP, cv2.CHAIN_APPROX_SIMPLE)\<close>, giving the
  contours and \<^verbatim>\<open>hierarchy[0]\<close>. The others are Shapely's: the \<^verbatim>\<open>Polygon\<close> constructor,
  \<^verbatim>\<open>simplify\<close> with \<^verbatim>\<open>preserve_topology=True\<close>, \<^verbatim>\<open>is_valid\<close>, \<^verbatim>\<open>buffer(0)\<close>, the parts
  \<^verbatim>\<open>geoms\<close> of a geometry that is a \<^verbatim>\<open>MultiPolygon\<close> (\<open>None\<close> for any other geometry),
  and \<^verbatim>\<open>area\<close>. They are taken to return.
\<close>

record 'g geom_libs =
  find_contours :: "bool list list \<Rightarrow> ring list \<times> hier list"
  polygon :: "ring \<Rightarrow> ring list option \<Rightarrow> 'g"
  simplify :: "'g \<Rightarrow> int \<Rightarrow> 'g"
  is_valid :: "'g \<Rightarrow> bool"
  buffer0 :: "'g \<Rightarrow> 'g"
  geoms :: "'g \<Rightarrow> 'g list option"
  area :: "'g \<Rightarrow> rat"

text \<open>
  The closed ring of the little square around \<open>(x, y)\<close>:
  \<^verbatim>\<open>np.array([[x-1, x+1, x+1, x-1, x-1], [y-1, y-1, y+1, y+1, y-1]]).T\<close>.
\<close>

definition square_ring :: "int \<Rightarrow> int \<Rightarrow> ring" where
  "square_ring x y = [(x - 1, y - 1), (x + 1, y - 1), (x + 1, y + 1), (x - 1, y + 1), (x - 1, y - 1)]"

text \<open>
  \<^verbatim>\<open>np.mean(coords, axis=0).astype(int)\<close> for the pixels of a label: the means of the
  rows and of the columns, truncated. The coordinates are not negative, so truncation
  is the integer quotient. A label of \<open>labels\<close> has at least one pixel.
\<close>

definition centroid :: "raster \<Rightarrow> int \<Rightarrow> int \<times> int" where
  "centroid v label =
     (let coords = where_eq v label; n = int (length coords)
      in (sum_list (map fst coords) div n, sum_list (map snd coords) div n))"

text \<open>
  \<^verbatim>\<open>np.squeeze(contours[k])\<close> is a view of the contour array \<open>k\<close>: writing through it
  changes that array. The variable \<^verbatim>\<open>shell\<close> is therefore either bound to contour \<open>k\<close>
  or holds an array of its own; \<^verbatim>\<open>holes\<close> is a list of contour numbers.
\<close>

datatype shellref = Bound nat | Own ring

fun deref :: "ring list \<Rightarrow> shellref \<Rightarrow> ring" where
  "deref cs (Bound k) = cs ! k"
| "deref cs (Own r) = r"

fun first_index :: "'a \<Rightarrow> 'a list \<Rightarrow> nat" where
  "first_index v [] = 0"
| "first_index v (x # xs) = (if x = v then 0 else Suc (first_index v xs))"

definition index_of_max :: "nat list \<Rightarrow> nat" where
  "index_of_max lengths = first_index (Max (set lengths)) lengths"

text \<open>
  The loop \<^verbatim>\<open>for i in range(len(contours))\<close> of the branch for more than one contour.
  The state is the variable \<^verbatim>\<open>shell\<close> (\<open>None\<close> while unassigned) and the list
  \<^verbatim>\<open>holes\<close>. Reading \<^verbatim>\<open>hierarchy[0][i]\<close> or \<^verbatim>\<open>contours[j]\<close> out of range raises
  \<^verbatim>\<open>IndexError\<close>. The last branch ends the loop.
\<close>

fun classify_contours ::
  "ring list \<Rightarrow> hier list \<Rightarrow> nat list \<Rightarrow> shellref option \<times> nat list
     \<Rightarrow> exn + (shellref option \<times> nat list)" where
  "classify_contours contours hierarchy [] st = Inr st"
| "classify_contours contours hierarchy (i # rest) (shell, holes) =
     (if length hierarchy \<le> i then Inl IndexError
      else
        (let child_idx = h_child (hierarchy ! i);
             parent_idx = h_parent (hierarchy ! i)
         in if parent_idx \<ge> 0 then
              (if nat parent_idx < length contours
               then classify_contours contours hierarchy rest (Some (Bound (nat parent_idx)), holes)
               else Inl IndexError)
            else if child_idx \<ge> 0 then
              (if nat child_idx < length contours
               then classify_contours contours hierarchy rest (shell, holes @ [nat child_idx])
               else Inl IndexError)
            else
              (let lengths = map length contours;
                   idx = index_of_max lengths
               in Inr (Some (Bound idx), holes))))"

text \<open>
  The three branches on the number of contours. \<open>prev\<close> is what the variable \<^verbatim>\<open>shell\<close>
  holds on entry: nothing for the first label, the previous label's shell array
  afterwards. Only the branch for more than one contour can leave it as it was.
\<close>

definition resolve_contours ::
  "ring list \<Rightarrow> hier list \<Rightarrow> raster \<Rightarrow> int \<Rightarrow> ring option
     \<Rightarrow> exn + (shellref option \<times> nat list option)" where
  "resolve_contours contours hierarchy v label prev =
     (if length contours = 0 then
        (let (y, x) = centroid v label
         in Inr (Some (Own (square_ring x y)), None))
      else if length contours > 1 then
        (case classify_contours contours hierarchy [0..<length contours]
                (map_option Own prev, []) of
           Inl e \<Rightarrow> Inl e
         | Inr (shell, holes) \<Rightarrow> Inr (shell, Some holes))
      else Inr (Some (Bound 0), None))"

text \<open>
  The translation of a ring, written through the variable: a bound shell and the holes
  change their contour arrays in place, one after the other. A hole whose contour has a
  single point is one-dimensional after \<^verbatim>\<open>np.squeeze\<close>, and \<^verbatim>\<open>holes[i][:, 0]\<close> raises
  \<^verbatim>\<open>IndexError\<close>.
\<close>

definition translate_point :: "int \<Rightarrow> int \<Rightarrow> point \<Rightarrow> point" where
  "translate_point add_x add_y p = (fst p + add_x, -1 * (snd p + add_y))"

fun translate_shell :: "(point \<Rightarrow> point) \<Rightarrow> ring list \<Rightarrow> shellref \<Rightarrow> shellref \<times> ring list" where
  "translate_shell tr cs (Own r) = (Own (map tr r), cs)"
| "translate_shell tr cs (Bound k) = (Bound k, cs[k := map tr (cs ! k)])"

fun translate_holes :: "(point \<Rightarrow> point) \<Rightarrow> ring list \<Rightarrow> nat list \<Rightarrow> exn + ring list" where
  "translate_holes tr cs [] = Inr cs"
| "translate_holes tr cs (k # ks) =
     (if length (cs ! k) = 1 then Inl IndexError
      else translate_holes tr (cs[k := map tr (cs ! k)]) ks)"

text \<open>
  The body of the loop over the labels up to the call of the \<^verbatim>\<open>Polygon\<close> constructor:
  the shell and the holes it is given.
\<close>

definition trace_label :: "'g geom_libs \<Rightarrow> raster \<Rightarrow> raster \<Rightarrow> int \<Rightarrow> ring list \<times> hier list" where
  "trace_label L bbox_plane plane label =
     find_contours L (mask_of (extract_bbox_image plane (labeled_bbox bbox_plane label) 1) label)"

definition polygon_rings ::
  "'g geom_libs \<Rightarrow> raster \<Rightarrow> raster \<Rightarrow> int \<Rightarrow> int \<Rightarrow> int \<Rightarrow> ring option
     \<Rightarrow> exn + (ring \<times> ring list option)" where
  "polygon_rings L v plane y_offset x_offset label prev =
     (let bbox = labeled_bbox v label;
          obj_im = extract_bbox_image plane bbox 1;
          mask = mask_of obj_im label;
          (contours, hierarchy) = find_contours L mask
      in case resolve_contours contours hierarchy v label prev of
           Inl e \<Rightarrow> Inl e
         | Inr (None, holes) \<Rightarrow> Inl UnboundLocalError
         | Inr (Some shell0, holes) \<Rightarrow>
             (let shell = (if length (deref contours shell0) < 3
                           then Own (square_ring (int (ncols mask) div 2) (int (length mask) div 2))
                           else shell0);
                  add_y = y_offset + bbox ! 0 - 1;
                  add_x = x_offset + bbox ! 2 - 1;
                  tr = translate_point add_x add_y;
                  (shell', cs) = translate_shell tr contours shell
              in case (case holes of None \<Rightarrow> Inr cs | Some hs \<Rightarrow> translate_holes tr cs hs) of
                   Inl e \<Rightarrow> Inl e
                 | Inr cs' \<Rightarrow> Inr (deref cs' shell', map_option (map (\<lambda>k. cs' ! k)) holes)))"

text \<open>
  Simplification and repair. \<^verbatim>\<open>np.max\<close> of an empty list of areas raises
  \<^verbatim>\<open>ValueError\<close>.
\<close>

definition repair_polygon :: "'g geom_libs \<Rightarrow> int \<Rightarrow> 'g \<Rightarrow> int \<Rightarrow> exn + 'g" where
  "repair_polygon L label poly0 tolerance =
     (let poly = simplify L poly0 tolerance
      in if \<not> is_valid L poly then
           (let poly = buffer0 L poly
            in if \<not> is_valid L poly then Inl (InvalidPolygon label)
               else (case geoms L poly of
                       Some gs \<Rightarrow>
                         (if gs = [] then Inl ValueError
                          else Inr (gs ! first_index (Max (set (map (area L) gs))) (map (area L) gs)))
                     | None \<Rightarrow> Inr poly))
         else Inr poly)"

text \<open>\<^verbatim>\<open>polygons[key] = poly\<close> on a dictionary kept as the list of its items.\<close>

fun dict_set :: "'k \<Rightarrow> 'v \<Rightarrow> ('k \<times> 'v) list \<Rightarrow> ('k \<times> 'v) list" where
  "dict_set k v [] = [(k, v)]"
| "dict_set k v ((k', v') # rest) =
     (if k' = k then (k, v) # rest else (k', v') # dict_set k v rest)"

text \<open>
  The loop \<^verbatim>\<open>for label in self.labels\<close>, with the variable \<^verbatim>\<open>shell\<close> carried from one
  label to the next.
\<close>

fun label_loop ::
  "'g geom_libs \<Rightarrow> raster \<Rightarrow> raster \<Rightarrow> int \<Rightarrow> int \<Rightarrow> int \<Rightarrow> int list \<Rightarrow> ring option
     \<Rightarrow> ((int \<times> int \<times> int) \<times> 'g) list \<Rightarrow> exn + ((int \<times> int \<times> int) \<times> 'g) list" where
  "label_loop L v plane y_offset x_offset tolerance [] prev polygons = Inr polygons"
| "label_loop L v plane y_offset x_offset tolerance (label # rest) prev polygons =
     (case polygon_rings L v plane y_offset x_offset label prev of
        Inl e \<Rightarrow> Inl e
      | Inr (shell, holes) \<Rightarrow>
          (case repair_polygon L label (polygon L shell holes) tolerance of
             Inl e \<Rightarrow> Inl e
           | Inr poly \<Rightarrow>
               label_loop L v plane y_offset x_offset tolerance rest (Some shell)
                 (dict_set (0, 0, label) poly polygons)))"

definition to_polygons ::
  "'g geom_libs \<Rightarrow> raster \<Rightarrow> int \<Rightarrow> int \<Rightarrow> int \<Rightarrow> exn + ((int \<times> int \<times> int) \<times> 'g) list" where
  "to_polygons L v y_offset x_offset tolerance =
     (case zero_border v of
        Inl e \<Rightarrow> Inl e
      | Inr plane \<Rightarrow> label_loop L v plane y_offset x_offset tolerance (labels v) None [])"

text \<open>
  Concrete instances of the library parameters, used to instantiate the theorems.
  The geometry is the pair of rings the constructor is given; simplification and
  \<^verbatim>\<open>buffer(0)\<close> change nothing; no geometry is a \<^verbatim>\<open>MultiPolygon\<close>. The tracer and the
  validity test are arguments. \<open>box_trace\<close> returns no contour for an empty mask and
  otherwise the corners of the bounding box of the mask's pixels, which is the OpenCV
  contour of a filled rectangle.
\<close>

definition box_trace :: "bool list list \<Rightarrow> ring list \<times> hier list" where
  "box_trace m =
     (let ps = concat (map (\<lambda>y. map (\<lambda>x. (int x, int y))
                                      (filter (\<lambda>x. m ! y ! x) [0..<length (m ! y)]))
                          [0..<length m]);
          xs = map fst ps; ys = map snd ps
      in if ps = [] then ([], [])
         else ([remdups [(Min (set xs), Min (set ys)), (Min (set xs), Max (set ys)),
                         (Max (set xs), Max (set ys)), (Max (set xs), Min (set ys))]],
               [(-1, -1, -1, -1)]))"

definition demo_libs ::
  "(bool list list \<Rightarrow> ring list \<times> hier list) \<Rightarrow> (ring \<times> ring list option \<Rightarrow> bool)
     \<Rightarrow> (ring \<times> ring list option) geom_libs" where
  "demo_libs tracer valid =
     \<lparr>find_contours = tracer, polygon = Pair, simplify = (\<lambda>g tol. g), is_valid = valid,
      buffer0 = (\<lambda>g. g), geoms = (\<lambda>g. None), area = (\<lambda>g. 0)\<rparr>"

text \<open>
  A plane with an object (label 2) in the interior and an object (label 1) that lies in
  the last row only.
\<close>

definition raster_b :: raster where
  "raster_b = [[0, 0, 0, 0, 0],
               [0, 2, 2, 0, 0],
               [0, 2, 2, 0, 0],
               [0, 0, 0, 1, 0]]"

text \<open>
  An object with two enclosed background pixels, and the contours and hierarchy of its
  mask in the two-level form of \<^verbatim>\<open>cv2.RETR_CCOMP\<close>: the outer contour, whose first
  child is the first hole, and the two holes, whose parent is the outer contour.
\<close>

definition raster_two_holes :: raster where
  "raster_two_holes = [[0, 0, 0, 0, 0, 0, 0],
                       [0, 1, 1, 1, 1, 1, 0],
                       [0, 1, 0, 1, 0, 1, 0],
                       [0, 1, 1, 1, 1, 1, 0],
                       [0, 0, 0, 0, 0, 0, 0]]"

definition two_holes_contours :: "ring list" where
  "two_holes_contours =
     [[(1, 1), (1, 3), (5, 3), (5, 1)],
      [(2, 1), (1, 2), (2, 3), (3, 2)],
      [(4, 1), (3, 2), (4, 3), (5, 2)]]"

definition two_holes_hierarchy :: "hier list" where
  "two_holes_hierarchy = [(-1, -1, 1, -1), (2, -1, -1, 0), (-1, 1, -1, 0)]"

text \<open>
  What the two-level output of \<^verbatim>\<open>cv2.RETR_CCOMP\<close> always satisfies: one hierarchy entry
  per contour; first child and parent are \<open>-1\<close> or the number of a contour; the first
  child of a contour has a parent; a contour that has a parent (the boundary of a hole)
  has more than one point. Empty contour sets, contours of fewer than three points and
  contours without parent and child are all admitted.
\<close>

definition ccomp_ok :: "ring list \<times> hier list \<Rightarrow> bool" where
  "ccomp_ok tr =
     (case tr of (cs, hs) \<Rightarrow>
        length hs = length cs \<and>
        list_all (\<lambda>i. h_parent (hs ! i) < int (length cs) \<and>
                       h_child (hs ! i) < int (length cs) \<and>
                       (0 \<le> h_child (hs ! i) \<longrightarrow> 0 \<le> h_parent (hs ! nat (h_child (hs ! i)))) \<and>
                       (0 \<le> h_parent (hs ! i) \<longrightarrow> length (cs ! i) \<noteq> 1))
                 [0..<length cs])"

definition traces_ok :: "'g geom_libs \<Rightarrow> raster \<Rightarrow> bool" where
  "traces_ok L v =
     (case zero_border v of
        Inl e \<Rightarrow> False
      | Inr plane \<Rightarrow> list_all (\<lambda>l. ccomp_ok (trace_label L v plane l)) (labels v))"

text \<open>
  The simplified polygon of a label is invalid and is still invalid after
  \<^verbatim>\<open>buffer(0)\<close>.
\<close>

definition remains_invalid :: "'g geom_libs \<Rightarrow> raster \<Rightarrow> int \<Rightarrow> int \<Rightarrow> int \<Rightarrow> int \<Rightarrow> bool" where
  "remains_invalid L v y_offset x_offset tolerance label =
     (case zero_border v of
        Inl e \<Rightarrow> False
      | Inr plane \<Rightarrow>
          (case polygon_rings L v plane y_offset x_offset label None of
             Inl e \<Rightarrow> False
           | Inr (shell, holes) \<Rightarrow>
               (let poly = simplify L (polygon L shell holes) tolerance
                in \<not> is_valid L poly \<and> \<not> is_valid L (buffer0 L poly))))"

text \<open>
  A plane of ten rows and ten columns with one compact object: the square of label 1 in
  rows 2 to 5 and columns 2 to 5.
\<close>

definition raster_square :: raster where
  "raster_square =
     [[0, 0, 0, 0, 0, 0, 0, 0, 0, 0],
      [0, 0, 0, 0, 0, 0, 0, 0, 0, 0],
      [0, 0, 1, 1, 1, 1, 0, 0, 0, 0],
      [0, 0, 1, 1, 1, 1, 0, 0, 0, 0],
      [0, 0, 1, 1, 1, 1, 0, 0, 0, 0],
      [0, 0, 1, 1, 1, 1, 0, 0, 0, 0],
      [0, 0, 0, 0, 0, 0, 0, 0, 0, 0],
      [0, 0, 0, 0, 0, 0, 0, 0, 0, 0],
      [0, 0, 0, 0, 0, 0, 0, 0, 0, 0],
      [0, 0, 0, 0, 0, 0, 0, 0, 0, 0]]"

text \<open>\<^verbatim>\<open>R.shape\<close> of a two-dimensional label image.\<close>

definition raster_shape :: "raster \<Rightarrow> nat list" where
  "raster_shape im = [length im, ncols im]"

section \<open>Theorems on tile geometry\<close>

text \<open>
  C5. For a site whose well, plate and experiment are all present, \<open>offset\<close> returns the
  pair (row * height + row * vertical displacement + the well's vertical offset,
  column * width + column * horizontal displacement + the well's horizontal offset).
\<close>

theorem offset_formula:
  assumes "well s = Some w" and "plate w = Some p" and "plate_experiment p = Some e"
  shows "offset s =
           Inr (site_y s * height s + site_y s * vertical_site_displacement e
                  + fst (well_offset w),
                site_x s * width s + site_x s * horizontal_site_displacement e
                  + snd (well_offset w))"
  using assms by (simp add: offset_def image_size_def)

theorem offset_formula_witness:
  "well site0 = Some well0 \<and> plate well0 = Some \<lparr>plate_experiment = Some experiment0\<rparr>
   \<and> plate_experiment \<lparr>plate_experiment = Some experiment0\<rparr> = Some experiment0
   \<and> offset site0 = Inr (1206, 2594)"
proof -
  have a: "well site0 = Some well0" by (simp add: site0_def)
  have b: "plate well0 = Some \<lparr>plate_experiment = Some experiment0\<rparr>" by (simp add: well0_def)
  have c: "plate_experiment \<lparr>plate_experiment = Some experiment0\<rparr> = Some experiment0" by simp
  show ?thesis
    using offset_formula [OF a b c] a b c
    by (simp add: site0_def well0_def experiment0_def)
qed

text \<open>
  C7, as amended. Without alignment metadata \<open>aligned_offset\<close> is \<open>offset\<close>. With
  alignment metadata and a computable offset, \<open>aligned_offset\<close> is \<open>offset\<close> plus
  (lower overhang, right overhang), so the two agree precisely when these two
  overhangs are both zero.
\<close>

theorem aligned_offset_cases:
  "(intersection s = None \<longrightarrow> aligned_offset s = offset s) \<and>
   (\<forall>i y x. intersection s = Some i \<and> offset s = Inr (y, x) \<longrightarrow>
      aligned_offset s = Inr (y + lower_overhang i, x + right_overhang i) \<and>
      (aligned_offset s = offset s \<longleftrightarrow> lower_overhang i = 0 \<and> right_overhang i = 0))"
  by (auto simp: aligned_offset_def)

theorem aligned_offset_cases_witness:
  "intersection site_shifted =
     Some \<lparr>upper_overhang = 4, lower_overhang = 5, right_overhang = 6, left_overhang = 7\<rparr>
   \<and> offset site_shifted = Inr (1206, 2594)
   \<and> aligned_offset site_shifted = Inr (1211, 2600)
   \<and> aligned_offset site_shifted \<noteq> offset site_shifted
   \<and> intersection site0 = None \<and> aligned_offset site0 = offset site0"
proof -
  have i: "intersection site_shifted =
      Some \<lparr>upper_overhang = 4, lower_overhang = 5, right_overhang = 6, left_overhang = 7\<rparr>"
    by (simp add: site_shifted_def)
  have off: "offset site_shifted = Inr (1206, 2594)"
    by (simp add: site_shifted_def site0_def well0_def experiment0_def offset_def
        image_size_def)
  have n: "intersection site0 = None" by (simp add: site0_def)
  from aligned_offset_cases [of site_shifted] i off
  have "aligned_offset site_shifted = Inr (1206 + 5, 2594 + 6)
        \<and> aligned_offset site_shifted \<noteq> offset site_shifted"
    by simp
  moreover from aligned_offset_cases [of site0] n
  have "aligned_offset site0 = offset site0" by simp
  ultimately show ?thesis using i off n by simp
qed

text \<open>
  C7 as the claim states it fails: a site that has alignment metadata whose lower and
  right overhangs are zero has \<open>aligned_offset\<close> equal to \<open>offset\<close>.
\<close>

theorem aligned_offset_iff_counterexample:
  "\<not> (aligned_offset site_zero_overhang = offset site_zero_overhang
        \<longleftrightarrow> intersection site_zero_overhang = None)"
  by (simp add: aligned_offset_def site_zero_overhang_def site0_def well0_def
      experiment0_def offset_def image_size_def)

section \<open>Theorems on the border classifier\<close>

lemma set_np_unique: "set (np_unique xs) = set xs"
  by (simp add: np_unique_def)

lemma sorted_np_unique: "sorted (np_unique xs)"
  by (simp add: np_unique_def)

lemma distinct_np_unique: "distinct (np_unique xs)"
  by (simp add: np_unique_def)

lemma set_object_ids: "set (object_ids im) = {v \<in> set (concat im). v \<noteq> 0}"
  by (auto simp: object_ids_def set_np_unique)

lemma edge_values_rectangular:
  "rectangular im \<Longrightarrow>
   edge_values im = Inr [np_unique (hd im), np_unique (last im),
                         np_unique (map hd im), np_unique (map last im)]"
  by (simp add: edge_values_def rectangular_def)

lemma set_border_ids_of:
  "set (border_ids_of [np_unique a, np_unique b, np_unique c, np_unique d]) =
     (set a \<union> set b \<union> set c \<union> set d) - {0}"
  by (auto simp: border_ids_of_def set_np_unique)

text \<open>
  C6. On a rectangular image with at least one row and one column, both functions
  return. The border labels are the object labels that occur in the first row, the last
  row, the first column or the last column, hence a subset of the distinct nonzero labels;
  \<open>find_border_objects\<close> returns one flag, 0 or 1, per distinct nonzero label, in the
  ascending order of the labels, and the flag is 1 precisely for the border labels. On an
  all-background image both results are empty. Both are functions of the image alone:
  they have no state to change.
\<close>

theorem border_classifier:
  assumes "rectangular im"
  shows "\<exists>ids flags.
           get_border_ids im = Inr ids \<and> find_border_objects im = Inr flags \<and>
           set ids = ((set (hd im) \<union> set (last im) \<union> set (map hd im) \<union> set (map last im)) - {0})
                       \<inter> set (object_ids im) \<and>
           set ids \<subseteq> set (object_ids im) \<and>
           sorted (object_ids im) \<and> distinct (object_ids im) \<and>
           set (object_ids im) = {v \<in> set (concat im). v \<noteq> 0} \<and>
           length flags = length (object_ids im) \<and>
           set flags \<subseteq> {0, 1} \<and>
           (\<forall>k < length flags. flags ! k = 1 \<longleftrightarrow> object_ids im ! k \<in> set ids) \<and>
           ((\<forall>v \<in> set (concat im). v = 0) \<longrightarrow> ids = [] \<and> flags = [])"
proof -
  let ?B = "border_ids_of [np_unique (hd im), np_unique (last im),
                           np_unique (map hd im), np_unique (map last im)]"
  let ?ids = "filter (\<lambda>i. i \<in> set ?B) (object_ids im)"
  let ?flags = "map (\<lambda>ob. if ob \<in> set ?B then 1 else 0) (object_ids im) :: int list"
  have g: "get_border_ids im = Inr ?ids"
    by (simp add: get_border_ids_def edge_values_rectangular [OF assms])
  have f: "find_border_objects im = Inr ?flags"
    by (simp add: find_border_objects_def edge_values_rectangular [OF assms])
  have s: "set ?ids = ((set (hd im) \<union> set (last im) \<union> set (map hd im) \<union> set (map last im)) - {0})
                       \<inter> set (object_ids im)"
    unfolding set_filter set_border_ids_of by blast
  have sub: "set ?ids \<subseteq> set (object_ids im)" by auto
  have len: "length ?flags = length (object_ids im)" by simp
  have bits: "set ?flags \<subseteq> {0, 1}" by auto
  have al: "\<forall>k < length ?flags. ?flags ! k = 1 \<longleftrightarrow> object_ids im ! k \<in> set ?ids"
    by auto
  have bg: "(\<forall>v \<in> set (concat im). v = 0) \<longrightarrow> ?ids = [] \<and> ?flags = []"
  proof
    assume "\<forall>v \<in> set (concat im). v = 0"
    then have "set (object_ids im) = {}" unfolding set_object_ids by blast
    then have "object_ids im = []" by simp
    then show "?ids = [] \<and> ?flags = []" by simp
  qed
  have so: "sorted (object_ids im)" and di: "distinct (object_ids im)"
    by (simp_all add: object_ids_def sorted_np_unique distinct_np_unique)
  show ?thesis
    apply (rule exI [of _ ?ids])
    apply (rule exI [of _ ?flags])
    apply (intro conjI)
              apply (fact g)
             apply (fact f)
            apply (fact s)
           apply (fact sub)
          apply (fact so)
         apply (fact di)
        apply (fact set_object_ids)
       apply (fact len)
      apply (fact bits)
     apply (fact al)
    apply (fact bg)
    done
qed

theorem border_classifier_witness:
  "rectangular raster_a \<and>
   get_border_ids raster_a = Inr [2, 7] \<and>
   find_border_objects raster_a = Inr [1, 0, 1] \<and>
   object_ids raster_a = [2, 3, 7] \<and>
   (\<exists>ids flags. get_border_ids raster_a = Inr ids \<and> find_border_objects raster_a = Inr flags \<and>
      set ids \<subseteq> set (object_ids raster_a) \<and> length flags = length (object_ids raster_a))"
proof -
  have r: "rectangular raster_a"
    by (simp add: rectangular_def raster_a_def ncols_def)
  have g: "get_border_ids raster_a = Inr [2, 7]" by code_simp
  have f: "find_border_objects raster_a = Inr [1, 0, 1]" by code_simp
  have ob: "object_ids raster_a = [2, 3, 7]" by code_simp
  from border_classifier [OF r] obtain ids flags where
    "get_border_ids raster_a = Inr ids" "find_border_objects raster_a = Inr flags"
    "set ids \<subseteq> set (object_ids raster_a)" "length flags = length (object_ids raster_a)"
    by blast
  with r g f ob show ?thesis by blast
qed

section \<open>Theorems on rasterization\<close>

lemma int32_id: "- 2147483648 \<le> v \<Longrightarrow> v < 2147483648 \<Longrightarrow> int32 v = v"
  by (simp add: int32_def)

lemma setitem4_Inr:
  assumes "setitem4 a yx z t v = Inr a'"
  shows "shape a' = shape a" and "dtype a' = dtype a"
    and "item a' idx = (if take 4 idx \<in> set (target_cells (shape a) yx z t)
                        then int32 v else item a idx)"
  using assms by (auto simp: setitem4_def target_cells_def split: if_splits)

lemma setitem4_shape_only:
  assumes "setitem4 a yx z t v = Inr a'" and "shape b = shape a"
  shows "\<exists>b'. setitem4 b yx z t v = Inr b'"
  using assms by (auto simp: setitem4_def split: if_splits)

lemma write_polygon_Inr:
  assumes "write_polygon L yo xo a ((t, z, label), poly) = Inr a'"
  shows "shape a' = shape a" and "dtype a' = dtype a"
    and "item a' idx = (if take 4 idx \<in> set (entry_cells L yo xo (shape a) ((t, z, label), poly))
                        then int32 label else item a idx)"
  using assms setitem4_Inr [of a "filled_pixels L yo xo poly" z t label a']
  by (simp_all add: write_polygon_def entry_cells_def)

lemma write_polygon_shape_only:
  assumes "write_polygon L yo xo a e = Inr a'" and "shape b = shape a"
  shows "\<exists>b'. write_polygon L yo xo b e = Inr b'"
  using assms setitem4_shape_only
  by (cases e) (auto simp: write_polygon_def)

lemma write_polygons_Inr:
  "write_polygons L yo xo a ps = Inr a' \<Longrightarrow> shape a' = shape a \<and> dtype a' = dtype a"
proof (induction ps arbitrary: a)
  case Nil
  then show ?case by simp
next
  case (Cons e ps)
  then obtain a1 where 1: "write_polygon L yo xo a e = Inr a1"
    and 2: "write_polygons L yo xo a1 ps = Inr a'"
    by (auto split: sum.splits)
  obtain t z l q where e: "e = ((t, z, l), q)" by (cases e) auto
  from write_polygon_Inr(1,2) [OF 1 [unfolded e]] Cons.IH [OF 2]
  show ?case by simp
qed

lemma write_polygons_total:
  assumes "\<forall>e \<in> set ps. \<exists>a1. write_polygon L yo xo a0 e = Inr a1"
    and "shape a = shape a0"
  shows "\<exists>a'. write_polygons L yo xo a ps = Inr a'"
  using assms
proof (induction ps arbitrary: a)
  case Nil
  then show ?case by simp
next
  case (Cons e ps)
  from Cons.prems obtain a1 where "write_polygon L yo xo a0 e = Inr a1" by auto
  from write_polygon_shape_only [OF this, of a] Cons.prems(2)
  obtain b where b: "write_polygon L yo xo a e = Inr b" by auto
  obtain t z l q where e: "e = ((t, z, l), q)" by (cases e) auto
  have "shape b = shape a0"
    using write_polygon_Inr(1) [OF b [unfolded e]] Cons.prems(2) by simp
  with Cons.IH [of b] Cons.prems(1) obtain a' where "write_polygons L yo xo b ps = Inr a'"
    by auto
  with b show ?case by simp
qed

lemma write_polygons_untouched:
  assumes "write_polygons L yo xo a ps = Inr a'"
    and "\<forall>e \<in> set ps. take 4 idx \<notin> set (entry_cells L yo xo (shape a) e)"
  shows "item a' idx = item a idx"
  using assms
proof (induction ps arbitrary: a)
  case Nil
  then show ?case by simp
next
  case (Cons e ps)
  then obtain a1 where 1: "write_polygon L yo xo a e = Inr a1"
    and 2: "write_polygons L yo xo a1 ps = Inr a'"
    by (auto split: sum.splits)
  obtain t z l q where e: "e = ((t, z, l), q)" by (cases e) auto
  note w = write_polygon_Inr [OF 1 [unfolded e]]
  have "item a' idx = item a1 idx"
    using Cons.IH [OF 2] Cons.prems(2) w(1) by simp
  also have "\<dots> = item a idx"
    using w(3) [of idx] Cons.prems(2) e by simp
  finally show ?case .
qed

lemma write_polygons_last:
  assumes "write_polygons L yo xo a (pre @ ((t, z, label), poly) # post) = Inr a'"
    and "take 4 idx \<in> set (entry_cells L yo xo (shape a) ((t, z, label), poly))"
    and "\<forall>e \<in> set post. take 4 idx \<notin> set (entry_cells L yo xo (shape a) e)"
  shows "item a' idx = int32 label"
  using assms
proof (induction pre arbitrary: a)
  case Nil
  then obtain a1 where 1: "write_polygon L yo xo a ((t, z, label), poly) = Inr a1"
    and 2: "write_polygons L yo xo a1 post = Inr a'"
    by (auto split: sum.splits)
  note w = write_polygon_Inr [OF 1]
  have "item a' idx = item a1 idx"
    using write_polygons_untouched [OF 2, of idx] Nil.prems(3) w(1) by simp
  then show ?case using w(3) [of idx] Nil.prems(2) by simp
next
  case (Cons e pre)
  then obtain a1 where 1: "write_polygon L yo xo a e = Inr a1"
    and 2: "write_polygons L yo xo a1 (pre @ ((t, z, label), poly) # post) = Inr a'"
    by (auto split: sum.splits)
  obtain t' z' l' q' where e: "e = ((t', z', l'), q')" by (cases e) auto
  have "shape a1 = shape a" using write_polygon_Inr(1) [OF 1 [unfolded e]] .
  with Cons.IH [OF 2] Cons.prems(2,3) show ?case by simp
qed

lemma unsqueeze_squeeze_index:
  "list_all2 (\<lambda>i n. i < n) c shp \<Longrightarrow> unsqueeze_index shp (squeeze_index shp c) = c"
proof (induction shp c rule: squeeze_index.induct)
  case (1 n ns i rest)
  then show ?case by auto
qed auto

lemma wrap_index_less: "0 < n \<Longrightarrow> wrap_index n i < n"
  by (simp add: wrap_index_def nat_less_iff)

lemma target_cells_in_range:
  assumes "c \<in> set (target_cells [h, w, nz, nt] yx z t)"
    and "0 < h" "0 < w" "0 < nz" "0 < nt"
  shows "list_all2 (\<lambda>i n. i < n) c [h, w, nz, nt]"
  using assms by (auto simp: target_cells_def wrap_index_less)

lemma setitem4_written_axes:
  assumes "setitem4 a yx z t v = Inr a'" and "yx \<noteq> []" and "shape a = [h, w, nz, nt]"
  shows "0 < h \<and> 0 < w \<and> 0 < nz \<and> 0 < nt"
proof -
  obtain y x where "(y, x) \<in> set yx" using assms(2) by (cases yx) auto
  with assms(1,3) show ?thesis
    by (auto simp: setitem4_def valid_index_def list_all_iff split: if_splits)
qed

lemma from_polygons_Inr:
  assumes "from_polygons L self ps yo xo dims = Inr (r, self')"
  shows "\<exists>array. write_polygons L yo xo (np_zeros dims) ps = Inr array \<and>
           r = np_squeeze array \<and> self' = self\<lparr>handle_value := r\<rparr>"
  using assms
  by (auto simp: from_polygons_def set_value_def split: sum.splits if_splits)

lemma from_polygons_of_array:
  assumes "write_polygons L yo xo (np_zeros dims) ps = Inr array"
  shows "from_polygons L self ps yo xo dims =
           Inr (np_squeeze array, self\<lparr>handle_value := np_squeeze array\<rparr>)"
proof -
  have "dtype array = Int32"
    using write_polygons_Inr [OF assms] by (simp add: np_zeros_def)
  then show ?thesis
    using assms by (simp add: from_polygons_def set_value_def np_squeeze_def)
qed

text \<open>
  C9. Take a list of dictionary entries, in the order of processing, each of which is
  rasterized without error when given alone, and a four-axis target. Then the whole list
  is rasterized without error, whatever overlaps it has; and a cell that an entry fills
  and no later entry fills holds that entry's label (as an \<open>int32\<close>: the label itself
  when it is in the \<open>int32\<close> range).
\<close>

theorem last_write_wins:
  assumes alone: "\<forall>e \<in> set (pre @ ((t, z, label), poly) # post).
                    \<exists>r h. from_polygons L self [e] yo xo dims = Inr (r, h)"
    and dims: "length dims = 4"
    and covered: "c \<in> set (entry_cells L yo xo dims ((t, z, label), poly))"
    and later: "\<forall>e \<in> set post. c \<notin> set (entry_cells L yo xo dims e)"
  shows "\<exists>r self'. from_polygons L self (pre @ ((t, z, label), poly) # post) yo xo dims
                      = Inr (r, self') \<and>
           item r (squeeze_index dims c) = int32 label \<and>
           (- 2147483648 \<le> label \<and> label < 2147483648
              \<longrightarrow> item r (squeeze_index dims c) = label)"
proof -
  let ?ps = "pre @ ((t, z, label), poly) # post"
  let ?a0 = "np_zeros dims"
  have sh0: "shape ?a0 = dims" by (simp add: np_zeros_def)
  have each: "\<forall>e \<in> set ?ps. \<exists>a1. write_polygon L yo xo ?a0 e = Inr a1"
  proof
    fix e assume "e \<in> set ?ps"
    with alone obtain r h where "from_polygons L self [e] yo xo dims = Inr (r, h)" by blast
    from from_polygons_Inr [OF this]
    show "\<exists>a1. write_polygon L yo xo ?a0 e = Inr a1"
      by (auto split: sum.splits)
  qed
  from write_polygons_total [OF each, of ?a0]
  obtain array where arr: "write_polygons L yo xo ?a0 ?ps = Inr array" by auto
  note fp = from_polygons_of_array [OF arr, of self]
  obtain h w nz nt where d4: "dims = [h, w, nz, nt]"
    using dims by (auto simp: length_Suc_conv numeral_eq_Suc)
  from each obtain a1 where a1: "write_polygon L yo xo ?a0 ((t, z, label), poly) = Inr a1"
    by auto
  have ne: "filled_pixels L yo xo poly \<noteq> []"
    using covered by (auto simp: entry_cells_def target_cells_def)
  have pos: "0 < h \<and> 0 < w \<and> 0 < nz \<and> 0 < nt"
    using setitem4_written_axes [OF a1 [unfolded write_polygon_def prod.case] ne] sh0 d4
    by simp
  have rng: "list_all2 (\<lambda>i n. i < n) c dims"
    using target_cells_in_range [of c h w nz nt] covered pos
    by (simp add: entry_cells_def d4)
  have len: "length c = 4" using rng d4 by (auto dest: list_all2_lengthD)
  have roundtrip: "unsqueeze_index dims (squeeze_index dims c) = c"
    by (rule unsqueeze_squeeze_index [OF rng])
  have "item array c = int32 label"
    using write_polygons_last [OF arr, of c] covered later len sh0 by simp
  then have val: "item (np_squeeze array) (squeeze_index dims c) = int32 label"
    using roundtrip write_polygons_Inr [OF arr] sh0 by (simp add: np_squeeze_def)
  show ?thesis
    using fp val int32_id [of label] by auto
qed

lemma box_pixels:
  "filled_pixels box_libs 0 0 ((0, 0), (2, 2)) =
     [(0, 0), (0, 1), (0, 2), (1, 0), (1, 1), (1, 2), (2, 0), (2, 1), (2, 2)]"
  "filled_pixels box_libs 0 0 ((2, 1), (3, 3)) =
     [(1, 2), (1, 3), (2, 2), (2, 3), (3, 2), (3, 3)]"
  by code_simp+

lemma box_alone:
  "\<exists>r h. from_polygons box_libs handle0 [((0, 0, 1), ((0, 0), (2, 2)))] 0 0 [4, 5, 1, 1] = Inr (r, h)"
  "\<exists>r h. from_polygons box_libs handle0 [((0, 0, 2), ((2, 1), (3, 3)))] 0 0 [4, 5, 1, 1] = Inr (r, h)"
  by (simp_all add: from_polygons_def write_polygon_def setitem4_def box_pixels np_zeros_def
      valid_index_def set_value_def np_squeeze_def)

lemma box_overlap:
  "[1, 2, 0, 0] \<in> set (entry_cells box_libs 0 0 [4, 5, 1, 1] ((0, 0, 1), ((0, 0), (2, 2))))"
  "[1, 2, 0, 0] \<in> set (entry_cells box_libs 0 0 [4, 5, 1, 1] ((0, 0, 2), ((2, 1), (3, 3))))"
  by (simp_all add: entry_cells_def target_cells_def box_pixels wrap_index_def)

theorem last_write_wins_witness:
  "[1, 2, 0, 0] \<in> set (entry_cells box_libs 0 0 [4, 5, 1, 1] ((0, 0, 1), ((0, 0), (2, 2)))) \<and>
   [1, 2, 0, 0] \<in> set (entry_cells box_libs 0 0 [4, 5, 1, 1] ((0, 0, 2), ((2, 1), (3, 3)))) \<and>
   (\<exists>r self'. from_polygons box_libs handle0 two_boxes 0 0 [4, 5, 1, 1] = Inr (r, self') \<and>
      item r [1, 2] = 2) \<and>
   (\<exists>r self'. from_polygons box_libs handle0 (rev two_boxes) 0 0 [4, 5, 1, 1] = Inr (r, self') \<and>
      item r [1, 2] = 1)"
proof -
  have fwd: "\<exists>r self'. from_polygons box_libs handle0 two_boxes 0 0 [4, 5, 1, 1] = Inr (r, self') \<and>
      item r [1, 2] = 2"
    using last_write_wins [of "[((0, 0, 1), ((0, 0), (2, 2)))]" 0 0 2 "((2, 1), (3, 3))" "[]"
        box_libs handle0 0 0 "[4, 5, 1, 1]" "[1, 2, 0, 0]"] box_alone box_overlap
    by (auto simp: two_boxes_def int32_def)
  have bwd: "\<exists>r self'. from_polygons box_libs handle0 (rev two_boxes) 0 0 [4, 5, 1, 1] = Inr (r, self') \<and>
      item r [1, 2] = 1"
    using last_write_wins [of "[((0, 0, 2), ((2, 1), (3, 3)))]" 0 0 1 "((0, 0), (2, 2))" "[]"
        box_libs handle0 0 0 "[4, 5, 1, 1]" "[1, 2, 0, 0]"] box_alone box_overlap
    by (auto simp: two_boxes_def int32_def)
  from fwd bwd box_overlap show ?thesis by blast
qed

text \<open>
  C10. A call of \<open>from_polygons\<close> that returns leaves a handle whose stored label image
  is the returned array, which is the squeezed array the loop filled; nothing else of
  the handle changes, and the label image held before has no influence on the result.
\<close>

theorem from_polygons_overwrites_value:
  assumes "from_polygons L self ps yo xo dims = Inr (r, self')"
  shows "handle_value self' = r \<and>
         self' = self\<lparr>handle_value := r\<rparr> \<and>
         (\<exists>array. write_polygons L yo xo (np_zeros dims) ps = Inr array \<and> r = np_squeeze array) \<and>
         from_polygons L (self\<lparr>handle_value := v\<rparr>) ps yo xo dims = Inr (r, self')"
proof -
  from from_polygons_Inr [OF assms] obtain array where
    arr: "write_polygons L yo xo (np_zeros dims) ps = Inr array"
    and r: "r = np_squeeze array" and s: "self' = self\<lparr>handle_value := r\<rparr>"
    by blast
  from from_polygons_of_array [OF arr, of "self\<lparr>handle_value := v\<rparr>"] r s
  have "from_polygons L (self\<lparr>handle_value := v\<rparr>) ps yo xo dims = Inr (r, self')"
    by simp
  with arr r s show ?thesis by auto
qed

theorem from_polygons_overwrites_value_witness:
  "\<exists>r self'. from_polygons box_libs handle0 two_boxes 0 0 [4, 5, 1, 1] = Inr (r, self') \<and>
      handle_value self' = r \<and> shape r = [4, 5] \<and> item r [0, 0] = 1 \<and>
      item (handle_value handle0) [0, 0] = 9"
proof -
  have "\<exists>r self'. from_polygons box_libs handle0 two_boxes 0 0 [4, 5, 1, 1] = Inr (r, self')"
    by (simp add: two_boxes_def from_polygons_def write_polygon_def setitem4_def box_pixels
        np_zeros_def valid_index_def set_value_def np_squeeze_def)
  then obtain r self' where
    fp: "from_polygons box_libs handle0 two_boxes 0 0 [4, 5, 1, 1] = Inr (r, self')"
    by blast
  from from_polygons_overwrites_value [OF fp, of "handle_value handle0"]
  have v: "handle_value self' = r" by simp
  from fp have "shape r = [4, 5] \<and> item r [0, 0] = 1"
    by (auto simp: two_boxes_def from_polygons_def write_polygon_def setitem4_def box_pixels
        np_zeros_def valid_index_def set_value_def np_squeeze_def target_cells_def
        wrap_index_def int32_def split: if_splits)
  with fp v show ?thesis by (simp add: handle0_def)
qed

text \<open>
  A target of fewer than four axes cannot be filled: the first entry already raises.
\<close>

lemma from_polygons_low_rank:
  assumes "length dims < 4" and "ps \<noteq> []"
  shows "from_polygons L self ps yo xo dims = Inl IndexError"
  using assms
  by (cases ps) (auto simp: from_polygons_def write_polygon_def setitem4_def np_zeros_def)

section \<open>Theorems on polygonization\<close>

lemma first_index_less: "v \<in> set xs \<Longrightarrow> first_index v xs < length xs"
  by (induction xs) auto

lemma index_of_max_less: "xs \<noteq> [] \<Longrightarrow> index_of_max xs < length xs"
  unfolding index_of_max_def by (rule first_index_less) simp

lemma ccomp_okD:
  assumes "ccomp_ok (cs, hs)" and "i < length cs"
  shows "length hs = length cs"
    and "h_parent (hs ! i) < int (length cs)"
    and "h_child (hs ! i) < int (length cs)"
    and "0 \<le> h_child (hs ! i) \<Longrightarrow> 0 \<le> h_parent (hs ! nat (h_child (hs ! i)))"
    and "0 \<le> h_parent (hs ! i) \<Longrightarrow> length (cs ! i) \<noteq> 1"
  using assms by (auto simp: ccomp_ok_def list_all_iff)

text \<open>
  A contour "assigns" when the loop body sets \<^verbatim>\<open>shell\<close> at it: it has a parent, or it
  has neither parent nor child.
\<close>

lemma classify_total:
  assumes ok: "ccomp_ok (cs, hs)" and "set is \<subseteq> {0..<length cs}"
    and "\<forall>k \<in> set h0. k < length cs \<and> length (cs ! k) \<noteq> 1"
  shows "\<exists>sh hl. classify_contours cs hs is (s0, h0) = Inr (sh, hl) \<and>
           (\<forall>k \<in> set hl. k < length cs \<and> length (cs ! k) \<noteq> 1) \<and>
           (sh = s0 \<or> (\<exists>k < length cs. sh = Some (Bound k)))"
  using assms(2,3)
proof (induction "is" arbitrary: s0 h0)
  case Nil
  then show ?case by simp
next
  case (Cons i rest)
  then have i: "i < length cs" and rest: "set rest \<subseteq> {0..<length cs}" by auto
  note d = ccomp_okD [OF ok i]
  have ne: "map length cs \<noteq> []" using i by auto
  consider (p) "0 \<le> h_parent (hs ! i)"
    | (c) "h_parent (hs ! i) < 0" "0 \<le> h_child (hs ! i)"
    | (n) "h_parent (hs ! i) < 0" "h_child (hs ! i) < 0"
    by linarith
  then show ?case
  proof cases
    case p
    have pl: "nat (h_parent (hs ! i)) < length cs" using d(2) p by linarith
    from Cons.IH [OF rest Cons.prems(2), of "Some (Bound (nat (h_parent (hs ! i))))"] pl
    show ?thesis using p i d(1) by auto
  next
    case c
    let ?k = "nat (h_child (hs ! i))"
    have kl: "?k < length cs" using d(3) c by linarith
    have "0 \<le> h_parent (hs ! ?k)" using d(4) c by simp
    then have "length (cs ! ?k) \<noteq> 1" using ccomp_okD(5) [OF ok kl] by simp
    with kl Cons.prems(2)
    have "\<forall>k \<in> set (h0 @ [?k]). k < length cs \<and> length (cs ! k) \<noteq> 1" by auto
    from Cons.IH [OF rest this, of s0]
    show ?thesis using c i d(1) kl by auto
  next
    case n
    have "index_of_max (map length cs) < length cs"
      using index_of_max_less [OF ne] by simp
    then show ?thesis using n i d(1) Cons.prems(2) by auto
  qed
qed

lemma classify_assigned:
  assumes ok: "ccomp_ok (cs, hs)" and "set is \<subseteq> {0..<length cs}"
    and "\<exists>i \<in> set is. \<not> (h_parent (hs ! i) < 0 \<and> 0 \<le> h_child (hs ! i))"
  shows "classify_contours cs hs is (s0, h0) = classify_contours cs hs is (s1, h0) \<and>
         (\<forall>sh hl. classify_contours cs hs is (s0, h0) = Inr (sh, hl) \<longrightarrow> sh \<noteq> None)"
  using assms(2,3)
proof (induction "is" arbitrary: s0 s1 h0)
  case Nil
  then show ?case by simp
next
  case (Cons i rest)
  then have i: "i < length cs" and rest: "set rest \<subseteq> {0..<length cs}" by auto
  note d = ccomp_okD [OF ok i]
  consider (p) "0 \<le> h_parent (hs ! i)"
    | (c) "h_parent (hs ! i) < 0" "0 \<le> h_child (hs ! i)"
    | (n) "h_parent (hs ! i) < 0" "h_child (hs ! i) < 0"
    by linarith
  then show ?case
  proof cases
    case p
    let ?s = "Some (Bound (nat (h_parent (hs ! i))))"
    have pl: "nat (h_parent (hs ! i)) < length cs" using d(2) p by linarith
    have keep: "\<forall>sh hl. classify_contours cs hs rest (?s, h0) = Inr (sh, hl) \<longrightarrow> sh \<noteq> None"
    proof (intro allI impI)
      fix sh hl assume r: "classify_contours cs hs rest (?s, h0) = Inr (sh, hl)"
      show "sh \<noteq> None"
      proof (cases "\<exists>j \<in> set rest. \<not> (h_parent (hs ! j) < 0 \<and> 0 \<le> h_child (hs ! j))")
        case True
        from Cons.IH [OF rest True, of ?s h0 ?s] r show ?thesis by blast
      next
        case False
        then have "classify_contours cs hs rest (?s, h0) = Inr (sh, hl) \<Longrightarrow> sh = ?s"
          using rest
        proof (induction rest arbitrary: h0)
          case Nil
          then show ?case by simp
        next
          case (Cons j js)
          then have "h_parent (hs ! j) < 0" "0 \<le> h_child (hs ! j)" by auto
          with Cons show ?case by (auto simp: Let_def split: if_splits)
        qed
        with r show ?thesis by simp
      qed
    qed
    show ?thesis using p i d(1) pl keep by simp
  next
    case c
    from c Cons.prems(2)
    have ex: "\<exists>j \<in> set rest. \<not> (h_parent (hs ! j) < 0 \<and> 0 \<le> h_child (hs ! j))" by auto
    from Cons.IH [OF rest ex, of s0 _ s1]
    show ?thesis using c i d(1) by (auto simp: Let_def)
  next
    case n
    then show ?thesis using i d(1) by simp
  qed
qed

lemma map_length_update: "map length (cs[k := map f (cs ! k)]) = map length cs"
  by (cases "k < length cs") (auto simp: list_eq_iff_nth_eq nth_list_update)

lemma translate_holes_total:
  assumes "\<forall>k \<in> set ks. k < length cs \<and> length (cs ! k) \<noteq> 1"
  shows "\<exists>cs'. translate_holes tr cs ks = Inr cs' \<and> map length cs' = map length cs"
  using assms
proof (induction ks arbitrary: cs)
  case Nil
  then show ?case by simp
next
  case (Cons k ks)
  let ?cs = "cs[k := map tr (cs ! k)]"
  have same: "map length ?cs = map length cs"
    by (rule map_length_update)
  have "\<forall>j \<in> set ks. j < length ?cs \<and> length (?cs ! j) \<noteq> 1"
  proof
    fix j assume j: "j \<in> set ks"
    with Cons.prems have jl: "j < length cs" and j1: "length (cs ! j) \<noteq> 1" by auto
    have "length (?cs ! j) = map length ?cs ! j" using jl by simp
    also have "\<dots> = length (cs ! j)" unfolding same using jl by simp
    finally show "j < length ?cs \<and> length (?cs ! j) \<noteq> 1" using jl j1 by simp
  qed
  from Cons.IH [OF this] same Cons.prems show ?case by auto
qed

lemma resolve_contours_total:
  assumes ok: "ccomp_ok (cs, hs)"
  shows "\<exists>s holes. (\<forall>prev. resolve_contours cs hs v label prev = Inr (Some s, holes)) \<and>
           (\<forall>hl. holes = Some hl \<longrightarrow> (\<forall>k \<in> set hl. k < length cs \<and> length (cs ! k) \<noteq> 1))"
proof -
  consider (zero) "length cs = 0" | (one) "length cs = 1" | (more) "length cs > 1"
    by linarith
  then show ?thesis
  proof cases
    case zero
    then show ?thesis by (auto simp: resolve_contours_def split: prod.splits)
  next
    case one
    then show ?thesis by (auto simp: resolve_contours_def)
  next
    case more
    let ?is = "[0..<length cs]"
    have sub: "set ?is \<subseteq> {0..<length cs}" by simp
    have 0: "0 < length cs" using more by linarith
    have ex: "\<exists>i \<in> set ?is. \<not> (h_parent (hs ! i) < 0 \<and> 0 \<le> h_child (hs ! i))"
    proof (cases "h_parent (hs ! 0) < 0 \<and> 0 \<le> h_child (hs ! 0)")
      case True
      let ?c = "nat (h_child (hs ! 0))"
      have "?c < length cs" using ccomp_okD(3) [OF ok 0] True by linarith
      moreover have "0 \<le> h_parent (hs ! ?c)" using ccomp_okD(4) [OF ok 0] True by simp
      ultimately show ?thesis by (intro bexI [of _ ?c]) auto
    next
      case False
      then show ?thesis using 0 by (intro bexI [of _ 0]) auto
    qed
    from classify_total [OF ok sub, of "[]" None]
    obtain sh hl where r: "classify_contours cs hs ?is (None, []) = Inr (sh, hl)"
      and hl: "\<forall>k \<in> set hl. k < length cs \<and> length (cs ! k) \<noteq> 1"
      by auto
    from classify_assigned [OF ok sub ex, of None "[]"] r
    have ind: "\<And>s1. classify_contours cs hs ?is (s1, []) = Inr (sh, hl)" and "sh \<noteq> None"
      by (metis, blast)
    then obtain s where s: "sh = Some s" by auto
    have "\<forall>prev. resolve_contours cs hs v label prev = Inr (Some s, Some hl)"
      using more ind s by (auto simp: resolve_contours_def)
    with hl show ?thesis by blast
  qed
qed

lemma polygon_rings_total:
  assumes ok: "ccomp_ok (trace_label L v plane label)"
  shows "\<exists>sh ho. \<forall>prev. polygon_rings L v plane yo xo label prev = Inr (sh, ho)"
proof -
  obtain cs hs where tr: "trace_label L v plane label = (cs, hs)" by (cases "trace_label L v plane label")
  then have fc: "find_contours L (mask_of (extract_bbox_image plane (labeled_bbox v label) 1) label) = (cs, hs)"
    by (simp add: trace_label_def)
  from resolve_contours_total [OF ok [unfolded tr], of v label]
  obtain s holes where res: "\<And>prev. resolve_contours cs hs v label prev = Inr (Some s, holes)"
    and hl: "\<And>hl. holes = Some hl \<Longrightarrow> (\<forall>k \<in> set hl. k < length cs \<and> length (cs ! k) \<noteq> 1)"
    by blast
  have same: "\<And>prev. polygon_rings L v plane yo xo label prev =
                 polygon_rings L v plane yo xo label None"
    unfolding polygon_rings_def Let_def fc by (simp add: res)
  have "\<exists>sh ho. polygon_rings L v plane yo xo label None = Inr (sh, ho)"
  proof (cases holes)
    case None
    then show ?thesis
      unfolding polygon_rings_def Let_def fc by (simp add: res split: prod.splits)
  next
    case (Some hl)
    let ?m = "mask_of (extract_bbox_image plane (labeled_bbox v label) 1) label"
    let ?tr = "translate_point (xo + labeled_bbox v label ! 2 - 1) (yo + labeled_bbox v label ! 0 - 1)"
    let ?shell = "if length (deref cs s) < 3
                  then Own (square_ring (int (ncols ?m) div 2) (int (length ?m) div 2)) else s"
    obtain sh' cs1 where ts: "translate_shell ?tr cs ?shell = (sh', cs1)"
      by (cases "translate_shell ?tr cs ?shell")
    have "map length cs1 = map length cs"
      using ts by (cases ?shell) (auto simp: map_length_update simp del: map_update)
    then have l: "length cs1 = length cs"
      and n: "\<And>k. k < length cs \<Longrightarrow> length (cs1 ! k) = length (cs ! k)"
      by (metis length_map, metis length_map nth_map)
    have "\<forall>k \<in> set hl. k < length cs1 \<and> length (cs1 ! k) \<noteq> 1"
      using hl [OF Some] l n by auto
    from translate_holes_total [OF this, of ?tr]
    obtain cs' where th: "translate_holes ?tr cs1 hl = Inr cs'" by blast
    show ?thesis
      unfolding polygon_rings_def Let_def fc using ts th by (simp add: res Some)
  qed
  with same show ?thesis by metis
qed

lemma repair_polygon_Inl:
  assumes "\<forall>g. geoms L g \<noteq> Some []"
  shows "repair_polygon L label p tol = Inl e \<longleftrightarrow>
           e = InvalidPolygon label \<and> \<not> is_valid L (simplify L p tol)
           \<and> \<not> is_valid L (buffer0 L (simplify L p tol))"
  using assms by (auto simp: repair_polygon_def Let_def split: option.splits)

lemma remains_invalid_rings:
  assumes "zero_border v = Inr plane"
    and "polygon_rings L v plane yo xo label None = Inr (sh, ho)"
  shows "remains_invalid L v yo xo tol label \<longleftrightarrow>
           \<not> is_valid L (simplify L (polygon L sh ho) tol)
           \<and> \<not> is_valid L (buffer0 L (simplify L (polygon L sh ho) tol))"
  using assms by (simp add: remains_invalid_def Let_def)

lemma label_loop_Inl:
  assumes ne: "\<forall>g. geoms L g \<noteq> Some []"
    and zb: "zero_border v = Inr plane"
    and ok: "\<forall>l \<in> set ls. ccomp_ok (trace_label L v plane l)"
  shows "label_loop L v plane yo xo tol ls prev acc = Inl e \<longleftrightarrow>
           (\<exists>l. find (remains_invalid L v yo xo tol) ls = Some l \<and> e = InvalidPolygon l)"
  using ok
proof (induction ls arbitrary: prev acc)
  case Nil
  then show ?case by simp
next
  case (Cons l ls)
  from polygon_rings_total [of L v plane l yo xo] Cons.prems
  obtain sh ho where pr: "\<And>prev. polygon_rings L v plane yo xo l prev = Inr (sh, ho)"
    by auto
  note ri = remains_invalid_rings [OF zb pr, of tol]
  note rp = repair_polygon_Inl [OF ne, of l "polygon L sh ho" tol]
  show ?case
  proof (cases "repair_polygon L l (polygon L sh ho) tol")
    case (Inl e')
    with rp [of e'] ri show ?thesis by (auto simp: pr)
  next
    case (Inr poly)
    with rp ri have "\<not> remains_invalid L v yo xo tol l" by auto
    with Inr Cons.IH [of "Some sh" "dict_set (0, 0, l) poly acc"] Cons.prems
    show ?thesis by (simp add: pr)
  qed
qed

lemma map_fst_dict_set:
  "k \<notin> fst ` set d \<Longrightarrow> map fst (dict_set k x d) = map fst d @ [k]"
  by (induction d) auto

lemma label_loop_keys:
  assumes "label_loop L v plane yo xo tol ls prev acc = Inr polys"
    and "distinct ls" and "\<forall>l \<in> set ls. (0, 0, l) \<notin> fst ` set acc"
  shows "map fst polys = map fst acc @ map (\<lambda>l. (0, 0, l)) ls"
  using assms
proof (induction ls arbitrary: prev acc)
  case Nil
  then show ?case by simp
next
  case (Cons l ls)
  from Cons.prems(1) obtain sh ho poly where
    "polygon_rings L v plane yo xo l prev = Inr (sh, ho)"
    "repair_polygon L l (polygon L sh ho) tol = Inr poly"
    and loop: "label_loop L v plane yo xo tol ls (Some sh) (dict_set (0, 0, l) poly acc) = Inr polys"
    by (auto split: sum.splits)
  have k: "map fst (dict_set (0, 0, l) poly acc) = map fst acc @ [(0, 0, l)]"
    using Cons.prems(3) by (intro map_fst_dict_set) simp
  have "\<forall>l' \<in> set ls. (0, 0, l') \<notin> fst ` set (dict_set (0, 0, l) poly acc)"
  proof
    fix l' assume l': "l' \<in> set ls"
    have "fst ` set (dict_set (0, 0, l) poly acc) = set (map fst (dict_set (0, 0, l) poly acc))"
      by simp
    also have "\<dots> = fst ` set acc \<union> {(0, 0, l)}" unfolding k by simp
    finally show "(0, 0, l') \<notin> fst ` set (dict_set (0, 0, l) poly acc)"
      using l' Cons.prems(2,3) by auto
  qed
  from Cons.IH [OF loop _ this] Cons.prems(2) k show ?case by simp
qed

lemma set_labels: "set (labels v) = {p \<in> set (concat v). 0 < p}"
  by (auto simp: labels_def set_np_unique)

lemma labels_nonneg: "\<forall>p \<in> set (concat v). 0 \<le> p \<Longrightarrow> labels v = object_ids v"
proof -
  assume a: "\<forall>p \<in> set (concat v). 0 \<le> p"
  have "\<And>p. p \<in> set (concat v) \<Longrightarrow> (0 < p) = (p \<noteq> 0)"
  proof -
    fix p assume "p \<in> set (concat v)"
    with a have "0 \<le> p" by blast
    then show "(0 < p) = (p \<noteq> 0)" by linarith
  qed
  then have "filter (\<lambda>p. p > 0) (concat v) = filter (\<lambda>p. p \<noteq> 0) (concat v)"
    by (intro filter_cong) simp_all
  then show ?thesis by (simp add: labels_def object_ids_def)
qed

text \<open>
  C2. Let the tracer's output be well formed for every label of the plane, and let no
  label's polygon stay invalid after repair. Then \<open>to_polygons\<close> returns, and the keys of
  the mapping are \<open>(0, 0, l)\<close> for the labels \<open>l\<close> of the plane, each once, in ascending
  order: one entry per distinct positive value, which on a plane without negative values
  is one per distinct nonzero value.
\<close>

theorem to_polygons_one_entry_per_label:
  assumes "traces_ok L v"
    and "\<forall>g. geoms L g \<noteq> Some []"
    and "\<forall>l \<in> set (labels v). \<not> remains_invalid L v yo xo tol l"
  shows "\<exists>polys. to_polygons L v yo xo tol = Inr polys \<and>
           map fst polys = map (\<lambda>l. (0, 0, l)) (labels v) \<and>
           length polys = length (labels v) \<and>
           distinct (map fst polys) \<and>
           set (labels v) = {p \<in> set (concat v). 0 < p} \<and>
           ((\<forall>p \<in> set (concat v). 0 \<le> p) \<longrightarrow> labels v = object_ids v)"
proof -
  from assms(1) obtain plane where zb: "zero_border v = Inr plane"
    and ok: "\<forall>l \<in> set (labels v). ccomp_ok (trace_label L v plane l)"
    by (auto simp: traces_ok_def list_all_iff split: sum.splits)
  have none: "find (remains_invalid L v yo xo tol) (labels v) = None"
    using assms(3) by (simp add: find_None_iff)
  have "\<And>e. label_loop L v plane yo xo tol (labels v) None [] \<noteq> Inl e"
    using label_loop_Inl [OF assms(2) zb ok, of yo xo tol None "[]"] none by simp
  then obtain polys where loop: "label_loop L v plane yo xo tol (labels v) None [] = Inr polys"
    by (cases "label_loop L v plane yo xo tol (labels v) None []") auto
  have d: "distinct (labels v)" by (simp add: labels_def distinct_np_unique)
  have keys: "map fst polys = map (\<lambda>l. (0, 0, l)) (labels v)"
    using label_loop_keys [OF loop d] by simp
  have len: "length polys = length (labels v)"
    using arg_cong [OF keys, of length] by simp
  have dk: "distinct (map fst polys)"
    unfolding keys using d by (simp add: distinct_map inj_on_def)
  have tp: "to_polygons L v yo xo tol = Inr polys"
    by (simp add: to_polygons_def zb loop)
  show ?thesis
    using tp keys len dk set_labels [of v] labels_nonneg [of v] by blast
qed

theorem to_polygons_one_entry_per_label_witness:
  "traces_ok (demo_libs box_trace (\<lambda>g. True)) raster_b \<and>
   labels raster_b = [1, 2] \<and>
   (\<exists>polys. to_polygons (demo_libs box_trace (\<lambda>g. True)) raster_b 0 0 2 = Inr polys \<and>
      map fst polys = [(0, 0, 1), (0, 0, 2)] \<and> length polys = 2)"
proof -
  let ?L = "demo_libs box_trace (\<lambda>g. True)"
  have t: "traces_ok ?L raster_b" by code_simp
  have g: "\<forall>g. geoms ?L g \<noteq> Some []" by (simp add: demo_libs_def)
  have r: "\<forall>l \<in> set (labels raster_b). \<not> remains_invalid ?L raster_b 0 0 2 l"
    by (simp add: remains_invalid_def demo_libs_def split: sum.splits prod.splits)
  have l: "labels raster_b = [1, 2]" by code_simp
  from to_polygons_one_entry_per_label [OF t g r] obtain polys where
    "to_polygons ?L raster_b 0 0 2 = Inr polys"
    "map fst polys = map (\<lambda>l. (0, 0, l)) (labels raster_b)"
    "length polys = length (labels raster_b)"
    by blast
  with l t show ?thesis by auto
qed



text \<open>
  The three local repairs. Without any contour the shell is the square around the
  centroid of the label's pixels; a single contour of fewer than three points is
  replaced by the square around the centre of the padded crop; when the first contour
  has neither parent nor child, the shell is the first contour of the greatest length
  and the hole list is empty. In every case the ring is then translated by the offsets
  and the corner of the crop, and no exception is raised.
\<close>

lemma polygon_rings_no_contour:
  assumes "trace_label L v plane label = ([], hs)"
  shows "polygon_rings L v plane yo xo label prev =
           Inr (map (translate_point (xo + labeled_bbox v label ! 2 - 1)
                                     (yo + labeled_bbox v label ! 0 - 1))
                    (square_ring (snd (centroid v label)) (fst (centroid v label))), None)"
  using assms unfolding polygon_rings_def trace_label_def Let_def
  by (simp add: resolve_contours_def square_ring_def split: prod.splits)

lemma polygon_rings_short_shell:
  assumes "trace_label L v plane label = ([c], hs)" and "length c < 3"
  shows "polygon_rings L v plane yo xo label prev =
           Inr (map (translate_point (xo + labeled_bbox v label ! 2 - 1)
                                     (yo + labeled_bbox v label ! 0 - 1))
                    (square_ring
                       (int (ncols (mask_of (extract_bbox_image plane (labeled_bbox v label) 1) label)) div 2)
                       (int (length (mask_of (extract_bbox_image plane (labeled_bbox v label) 1) label)) div 2)),
                None)"
  using assms unfolding polygon_rings_def trace_label_def Let_def
  by (simp add: resolve_contours_def)

lemma polygon_rings_siblings:
  assumes "trace_label L v plane label = (cs, hs)" and "1 < length cs" and "hs \<noteq> []"
    and "h_parent (hs ! 0) < 0" and "h_child (hs ! 0) < 0"
    and "3 \<le> length (cs ! index_of_max (map length cs))"
  shows "polygon_rings L v plane yo xo label prev =
           Inr (map (translate_point (xo + labeled_bbox v label ! 2 - 1)
                                     (yo + labeled_bbox v label ! 0 - 1))
                    (cs ! index_of_max (map length cs)), Some [])"
proof -
  let ?k = "index_of_max (map length cs)"
  have fc: "find_contours L (mask_of (extract_bbox_image plane (labeled_bbox v label) 1) label)
              = (cs, hs)"
    using assms(1) by (simp add: trace_label_def)
  have ne: "cs \<noteq> []" using assms(2) by auto
  then have k: "?k < length cs"
    using index_of_max_less [of "map length cs"] by simp
  have upt: "[0..<length cs] = 0 # [Suc 0..<length cs]"
    by (rule upt_conv_Cons) (use assms(2) in linarith)
  have len: "\<not> length cs = 0" "length cs > 1" using assms(2) by auto
  have res: "resolve_contours cs hs v label prev = Inr (Some (Bound ?k), Some [])"
    unfolding resolve_contours_def upt using assms(3,4,5) len by simp
  show ?thesis
    unfolding polygon_rings_def Let_def fc prod.case res
    using k assms(6) by simp
qed

text \<open>
  The hole list never has more entries than there are contours with a first child and
  without a parent: an outer contour contributes one hole, however many it encloses.
\<close>

lemma classify_holes_bound:
  "classify_contours cs hs is (s0, h0) = Inr (sh, hl) \<Longrightarrow>
   length hl \<le> length h0
     + length (filter (\<lambda>i. h_parent (hs ! i) < 0 \<and> 0 \<le> h_child (hs ! i)) is)"
proof (induction "is" arbitrary: s0 h0)
  case Nil
  then show ?case by simp
next
  case (Cons i rest)
  consider (p) "0 \<le> h_parent (hs ! i)"
    | (c) "h_parent (hs ! i) < 0" "0 \<le> h_child (hs ! i)"
    | (n) "h_parent (hs ! i) < 0" "h_child (hs ! i) < 0"
    by linarith
  then show ?case
  proof cases
    case p
    with Cons.prems have "classify_contours cs hs rest (Some (Bound (nat (h_parent (hs ! i)))), h0) = Inr (sh, hl)"
      by (auto simp: Let_def split: if_splits)
    from Cons.IH [OF this] p show ?thesis by simp
  next
    case c
    with Cons.prems have "classify_contours cs hs rest (s0, h0 @ [nat (h_child (hs ! i))]) = Inr (sh, hl)"
      by (auto simp: Let_def split: if_splits)
    from Cons.IH [OF this] c show ?thesis by simp
  next
    case n
    with Cons.prems show ?thesis by (auto simp: Let_def split: if_splits)
  qed
qed

text \<open>
  C3, evaluated. The object of \<open>raster_two_holes\<close> encloses two background pixels and its
  mask has three contours, the outer one and two holes. The polygon that \<open>to_polygons\<close>
  constructs has one interior ring, the first child of the outer contour; the second hole
  is not collected.
\<close>

lemma two_holes_trace_ok: "ccomp_ok (two_holes_contours, two_holes_hierarchy)"
  by code_simp

theorem two_holes_one_collected:
  "length two_holes_contours = 3 \<and>
   resolve_contours two_holes_contours two_holes_hierarchy raster_two_holes 1 None
     = Inr (Some (Bound 0), Some [1]) \<and>
   to_polygons (demo_libs (\<lambda>m. (two_holes_contours, two_holes_hierarchy)) (\<lambda>g. True))
       raster_two_holes 0 0 0
     = Inr [((0, 0, 1), ([(1, - 1), (1, - 3), (5, - 3), (5, - 1)],
                          Some [[(2, - 1), (1, - 2), (2, - 3), (3, - 2)]]))]"
  by code_simp

text \<open>
  C4, evaluated. In \<open>raster_b\<close> the label 1 occupies the pixel in row 3, column 3 of the
  last row, which the zeroing of the border erases. \<open>to_polygons\<close> emits one polygon for
  it, a square of side 2; but the square is the one around column 5, row 5 (mirrored to
  \<open>y = -5\<close>), not the one around the centroid in column 3, row 3: the corner of the crop
  is added to a centroid that is already in plane coordinates.
\<close>

theorem border_object_square_displaced:
  "centroid raster_b 1 = (3, 3) \<and>
   labeled_bbox raster_b 1 = [3, 4, 3, 4] \<and>
   to_polygons (demo_libs box_trace (\<lambda>g. True)) raster_b 0 0 2
     = Inr [((0, 0, 1), (map (translate_point 0 0) (square_ring 5 5), None)),
            ((0, 0, 2), ([(1, - 1), (1, - 2), (2, - 2), (2, - 1)], None))] \<and>
   map (translate_point 0 0) (square_ring 5 5) = [(4, - 4), (6, - 4), (6, - 6), (4, - 6), (4, - 4)] \<and>
   map (translate_point 0 0) (square_ring 5 5) \<noteq> map (translate_point 0 0) (square_ring 3 3)"
  by code_simp

text \<open>
  C1, evaluated. For the plane \<open>raster_square\<close>, whose only object is compact,
  \<open>to_polygons\<close> with zero offsets and tolerance 0 returns one polygon. Given that
  mapping, zero offsets and the shape \<open>(10, 10)\<close> of the plane as dimensions,
  \<open>from_polygons\<close> does not return a label image: the array it creates has two axes,
  and the assignment \<^verbatim>\<open>array[y, x, z, t] = label\<close> raises \<^verbatim>\<open>IndexError\<close>, whatever the
  conversion and the fill of the polygon produce and whatever the handle holds.
\<close>

theorem round_trip_raises:
  "labels raster_square = [1] \<and>
   raster_shape raster_square = [10, 10] \<and>
   to_polygons (demo_libs box_trace (\<lambda>g. True)) raster_square 0 0 0
     = Inr [((0, 0, 1), ([(2, - 2), (2, - 5), (5, - 5), (5, - 2)], None))] \<and>
   from_polygons L self [((0, 0, 1), ([(2, - 2), (2, - 5), (5, - 5), (5, - 2)], None))] 0 0
       (raster_shape raster_square)
     = Inl IndexError"
proof -
  have l: "labels raster_square = [1]" by code_simp
  have s: "raster_shape raster_square = [10, 10]" by code_simp
  have t: "to_polygons (demo_libs box_trace (\<lambda>g. True)) raster_square 0 0 0
             = Inr [((0, 0, 1), ([(2, - 2), (2, - 5), (5, - 5), (5, - 2)], None))]"
    by code_simp
  have f: "from_polygons L self [((0, 0, 1), ([(2, - 2), (2, - 5), (5, - 5), (5, - 2)], None))] 0 0
             (raster_shape raster_square) = Inl IndexError"
    unfolding s
    by (simp add: from_polygons_def write_polygon_def setitem4_def np_zeros_def)
  from l s t f show ?thesis by simp
qed

end
